theory Spec2Isabelle
  imports Main "HOL-Library.Sublist" "HOL-Library.Multiset"
begin

section \<open>Data model\<close>

text \<open>
  The manifests and navigation entries are plain JavaScript objects. Roles and plan tiers
  are string literals at run time (\<^verbatim>\<open>'admin'\<close>, \<^verbatim>\<open>'pro'\<close>), so both are strings
  here. An optional field is an \<open>option\<close>: \<open>None\<close> is the absent field.
  The route tables are opaque to the registry and to the navigation filter.
\<close>

typedecl RouteObject

type_synonym UserRole = string
type_synonym PlanTier = string

record ModuleManifest =
  name :: string
  routes :: "RouteObject list"
  allowedRoles :: "UserRole list option"
  minPlan :: "PlanTier option"
  public :: "bool option"

record NavItem =
  to :: string
  label :: string
  module :: string

text \<open>
  What the registry imports and this development does not have: the auth manifest
  (\<^verbatim>\<open>modules/auth/index.ts\<close>) and the route table of every module
  (\<^verbatim>\<open>./routes.ts\<close>). They are parameters of everything below.
\<close>

record Imports =
  authModule :: ModuleManifest
  dashboardRoutes :: "RouteObject list"
  productRoutes :: "RouteObject list"
  userRoutes :: "RouteObject list"
  settingsRoutes :: "RouteObject list"

section \<open>JavaScript truthiness of the optional fields\<close>

text \<open>\<^verbatim>\<open>m.public\<close> as a condition: an absent flag and \<^verbatim>\<open>false\<close> are both falsy.\<close>

definition truthy_flag :: "bool option \<Rightarrow> bool" where
  "truthy_flag b = (case b of None \<Rightarrow> False | Some v \<Rightarrow> v)"

text \<open>\<^verbatim>\<open>xs?.length\<close> as a condition: falsy for an absent array and for length 0.\<close>

definition truthy_length :: "'a list option \<Rightarrow> bool" where
  "truthy_length xs = (case xs of None \<Rightarrow> False | Some ys \<Rightarrow> length ys \<noteq> 0)"

text \<open>A string as a condition: falsy when absent and when empty.\<close>

definition truthy_string :: "string option \<Rightarrow> bool" where
  "truthy_string s = (case s of None \<Rightarrow> False | Some t \<Rightarrow> t \<noteq> [])"

section \<open>The module manifests\<close>

definition dashboardModule :: "Imports \<Rightarrow> ModuleManifest" where
  "dashboardModule imp =
     \<lparr>name = ''dashboard'', routes = dashboardRoutes imp,
      allowedRoles = Some [''admin'', ''editor'', ''viewer''],
      minPlan = None, public = None\<rparr>"

definition productsModule :: "Imports \<Rightarrow> ModuleManifest" where
  "productsModule imp =
     \<lparr>name = ''products'', routes = productRoutes imp,
      allowedRoles = Some [''admin'', ''editor''],
      minPlan = Some ''starter'', public = None\<rparr>"

definition usersModule :: "Imports \<Rightarrow> ModuleManifest" where
  "usersModule imp =
     \<lparr>name = ''users'', routes = userRoutes imp,
      allowedRoles = Some [''admin''],
      minPlan = Some ''pro'', public = None\<rparr>"

definition settingsModule :: "Imports \<Rightarrow> ModuleManifest" where
  "settingsModule imp =
     \<lparr>name = ''settings'', routes = settingsRoutes imp,
      allowedRoles = Some [''admin'', ''editor''],
      minPlan = None, public = None\<rparr>"

text \<open>
  Modelled from the spec: the auth manifest of \<^verbatim>\<open>modules/auth/index.ts\<close> is missing.
  The spec's data model asks for unique names; the template manifest names a module after
  its folder and marks auth as the example of a public module, with no role or plan gate.
\<close>

definition authModule_modelled :: "RouteObject list \<Rightarrow> ModuleManifest" where
  "authModule_modelled authRoutes =
     \<lparr>name = ''auth'', routes = authRoutes,
      allowedRoles = None, minPlan = None, public = Some True\<rparr>"

definition modelledImports :: Imports where
  "modelledImports =
     \<lparr>authModule = authModule_modelled [], dashboardRoutes = [], productRoutes = [],
      userRoutes = [], settingsRoutes = []\<rparr>"

section \<open>The registry (modules/registry.ts)\<close>

definition modules :: "Imports \<Rightarrow> ModuleManifest list" where
  "modules imp =
     [authModule imp, dashboardModule imp, productsModule imp, usersModule imp,
      settingsModule imp]"

definition publicModules :: "Imports \<Rightarrow> ModuleManifest list" where
  "publicModules imp = filter (\<lambda>m. truthy_flag (public m)) (modules imp)"

definition protectedModules :: "Imports \<Rightarrow> ModuleManifest list" where
  "protectedModules imp = filter (\<lambda>m. \<not> truthy_flag (public m)) (modules imp)"

section \<open>The sidebar (root/navigation.ts)\<close>

definition sidebarNav :: "NavItem list" where
  "sidebarNav =
     [\<lparr>to = ''/dashboard'', label = ''Dashboard'', module = ''dashboard''\<rparr>,
      \<lparr>to = ''/products'', label = ''Products'', module = ''products''\<rparr>,
      \<lparr>to = ''/users'', label = ''Users'', module = ''users''\<rparr>,
      \<lparr>to = ''/settings'', label = ''Settings'', module = ''settings''\<rparr>]"

text \<open>
  \<^verbatim>\<open>new Map(entries)\<close> sets the entries in order, so of two entries with one key the
  later one stays.
\<close>

definition newMap :: "('k \<times> 'v) list \<Rightarrow> ('k \<rightharpoonup> 'v)" where
  "newMap entries = fold (\<lambda>(k, v) m. m(k \<mapsto> v)) entries Map.empty"

definition moduleMap :: "Imports \<Rightarrow> (string \<rightharpoonup> ModuleManifest)" where
  "moduleMap imp = newMap (map (\<lambda>m. (name m, m)) (modules imp))"

text \<open>
  The arrow function handed to \<^verbatim>\<open>filter\<close>, with the map it closes over as an
  argument: one branch for each \<^verbatim>\<open>return\<close> of the source, in the source's order.
\<close>

definition navItemVisible ::
  "(string \<rightharpoonup> ModuleManifest) \<Rightarrow> (UserRole list \<Rightarrow> bool) \<Rightarrow> (PlanTier \<Rightarrow> bool) \<Rightarrow> NavItem \<Rightarrow> bool"
where
  "navItemVisible mm hasRole hasPlan item =
     (case mm (module item) of
        None \<Rightarrow> False
      | Some manifest \<Rightarrow>
          if truthy_length (allowedRoles manifest)
             \<and> \<not> hasRole (case allowedRoles manifest of Some rs \<Rightarrow> rs | None \<Rightarrow> [])
          then False
          else if truthy_string (minPlan manifest)
             \<and> \<not> hasPlan (case minPlan manifest of Some p \<Rightarrow> p | None \<Rightarrow> [])
          then False
          else True)"

definition getVisibleNav ::
  "Imports \<Rightarrow> (UserRole list \<Rightarrow> bool) \<Rightarrow> (PlanTier \<Rightarrow> bool) \<Rightarrow> NavItem list"
where
  "getVisibleNav imp hasRole hasPlan =
     filter (navItemVisible (moduleMap imp) hasRole hasPlan) sidebarNav"

section \<open>The configuration as a store\<close>

text \<open>
  The sidebar array, the registry array and the lookup map are objects that JavaScript
  code can write to, and the two callbacks of \<^verbatim>\<open>getVisibleNav\<close> are arbitrary
  functions. To say what a call writes, the same code is modelled once more with the
  store explicit: a callback takes the store and returns its answer with the store it
  leaves behind. Manifests are kept by value.
\<close>

record Store =
  sidebarNav_ref :: "NavItem list"
  modules_ref :: "ModuleManifest list"
  moduleMap_ref :: "string \<rightharpoonup> ModuleManifest"

type_synonym 'a Callback = "'a \<Rightarrow> Store \<Rightarrow> bool \<times> Store"

text \<open>A predicate in the mathematical sense, as a callback: it reads and writes nothing.\<close>

definition pureCallback :: "('a \<Rightarrow> bool) \<Rightarrow> 'a Callback" where
  "pureCallback f = (\<lambda>x \<sigma>. (f x, \<sigma>))"

text \<open>
  Module initialisation for a given sidebar and registry: line 27 of the navigation
  file builds the map from the registry.
\<close>

definition loadStore :: "NavItem list \<Rightarrow> ModuleManifest list \<Rightarrow> Store" where
  "loadStore nav ms =
     \<lparr>sidebarNav_ref = nav, modules_ref = ms,
      moduleMap_ref = newMap (map (\<lambda>m. (name m, m)) ms)\<rparr>"

definition loadedStore :: "Imports \<Rightarrow> Store" where
  "loadedStore imp = loadStore sidebarNav (modules imp)"

text \<open>
  The arrow function again. \<^verbatim>\<open>a && !f(x)\<close> calls \<open>f\<close> only when \<open>a\<close> is truthy, and
  the second \<^verbatim>\<open>if\<close> is reached only when the first did not return.
\<close>

definition navItemVisible_st ::
  "UserRole list Callback \<Rightarrow> PlanTier Callback \<Rightarrow> NavItem \<Rightarrow> Store \<Rightarrow> bool \<times> Store"
where
  "navItemVisible_st hasRole hasPlan item \<sigma> =
     (case moduleMap_ref \<sigma> (module item) of
        None \<Rightarrow> (False, \<sigma>)
      | Some manifest \<Rightarrow>
          (case (if truthy_length (allowedRoles manifest)
                 then hasRole (case allowedRoles manifest of Some rs \<Rightarrow> rs | None \<Rightarrow> []) \<sigma>
                 else (True, \<sigma>)) of
             (roleOk, \<sigma>1) \<Rightarrow>
               if \<not> roleOk then (False, \<sigma>1)
               else (case (if truthy_string (minPlan manifest)
                           then hasPlan (case minPlan manifest of Some p \<Rightarrow> p | None \<Rightarrow> []) \<sigma>1
                           else (True, \<sigma>1)) of
                       (planOk, \<sigma>2) \<Rightarrow> if \<not> planOk then (False, \<sigma>2) else (True, \<sigma>2))))"

text \<open>
  \<^verbatim>\<open>Array.prototype.filter\<close> on the sidebar array: the length is read once, before the
  loop; each index is read when the loop reaches it and skipped when the array no longer
  has it; a selected element is appended to a fresh array.
\<close>

function filterLoop ::
  "(NavItem \<Rightarrow> Store \<Rightarrow> bool \<times> Store) \<Rightarrow> nat \<Rightarrow> nat \<Rightarrow> NavItem list \<Rightarrow> Store
     \<Rightarrow> NavItem list \<times> Store"
where
  "filterLoop cb k len acc \<sigma> =
     (if len \<le> k then (acc, \<sigma>)
      else if length (sidebarNav_ref \<sigma>) \<le> k then filterLoop cb (Suc k) len acc \<sigma>
      else (case cb (sidebarNav_ref \<sigma> ! k) \<sigma> of
              (selected, \<sigma>') \<Rightarrow>
                filterLoop cb (Suc k) len
                  (if selected then acc @ [sidebarNav_ref \<sigma> ! k] else acc) \<sigma>'))"
  by pat_completeness auto
termination
  by (relation "measure (\<lambda>(cb, k, len, acc, \<sigma>). len - k)") auto

declare filterLoop.simps [simp del]

definition getVisibleNav_st ::
  "UserRole list Callback \<Rightarrow> PlanTier Callback \<Rightarrow> Store \<Rightarrow> NavItem list \<times> Store"
where
  "getVisibleNav_st hasRole hasPlan \<sigma> =
     filterLoop (navItemVisible_st hasRole hasPlan) 0 (length (sidebarNav_ref \<sigma>)) [] \<sigma>"

section \<open>The access-control derivation, in the words of the specification\<close>

text \<open>
  A role gate is open when the manifest lists no roles (absent or empty) or the user has
  one of the listed roles; a plan gate is open when the manifest names no plan or the
  user's plan reaches it. An entry is granted when the registry holds a manifest of the
  entry's module name with both gates open.
\<close>

definition roleGateOpen :: "(UserRole list \<Rightarrow> bool) \<Rightarrow> ModuleManifest \<Rightarrow> bool" where
  "roleGateOpen hasRole m =
     (case allowedRoles m of None \<Rightarrow> True | Some rs \<Rightarrow> rs = [] \<or> hasRole rs)"

definition planGateOpen :: "(PlanTier \<Rightarrow> bool) \<Rightarrow> ModuleManifest \<Rightarrow> bool" where
  "planGateOpen hasPlan m = (case minPlan m of None \<Rightarrow> True | Some p \<Rightarrow> hasPlan p)"

definition accessGranted ::
  "ModuleManifest list \<Rightarrow> (UserRole list \<Rightarrow> bool) \<Rightarrow> (PlanTier \<Rightarrow> bool) \<Rightarrow> NavItem \<Rightarrow> bool"
where
  "accessGranted ms hasRole hasPlan item =
     (\<exists>m \<in> set ms. name m = module item \<and> roleGateOpen hasRole m \<and> planGateOpen hasPlan m)"

section \<open>Sample inputs\<close>

text \<open>
  Predicates as a caller could pass them: the user has one role and is asked whether it
  is among the listed ones; the user's plan reaches a set of tiers. And a sidebar entry
  with a manifest that lists no roles, neither of them in the shipped configuration.
\<close>

definition userHasRole :: "UserRole \<Rightarrow> UserRole list \<Rightarrow> bool" where
  "userHasRole role rs = (role \<in> set rs)"

definition planCovers :: "PlanTier list \<Rightarrow> PlanTier \<Rightarrow> bool" where
  "planCovers tiers p = (p \<in> set tiers)"

definition reportsItem :: NavItem where
  "reportsItem = \<lparr>to = ''/reports'', label = ''Reports'', module = ''reports''\<rparr>"

definition reportsModule :: ModuleManifest where
  "reportsModule =
     \<lparr>name = ''reports'', routes = [], allowedRoles = Some [], minPlan = Some ''pro'',
      public = None\<rparr>"

section \<open>Facts about the registry\<close>

lemma newMap_snoc: "newMap (entries @ [(k, v)]) = (newMap entries)(k \<mapsto> v)"
  by (simp add: newMap_def)

lemma newMap_Nil: "newMap [] = Map.empty"
  by (simp add: newMap_def)

lemma newMap_last_wins: "newMap entries = map_of (rev entries)"
proof (induction entries rule: rev_induct)
  case Nil
  show ?case by (simp add: newMap_Nil)
next
  case (snoc e entries)
  obtain k v where e: "e = (k, v)" by (cases e)
  show ?case unfolding e newMap_snoc snoc.IH by (rule ext) simp
qed

lemma newMap_None_iff: "newMap entries k = None \<longleftrightarrow> k \<notin> fst ` set entries"
  by (simp add: newMap_last_wins map_of_eq_None_iff)

lemma newMap_Some_iff:
  "distinct (map fst entries) \<Longrightarrow> newMap entries k = Some v \<longleftrightarrow> (k, v) \<in> set entries"
  by (simp add: newMap_last_wins distinct_rev rev_map [symmetric])

lemma moduleMap_registry_None_iff:
  "newMap (map (\<lambda>m. (name m, m)) ms) k = None \<longleftrightarrow> (\<forall>m \<in> set ms. name m \<noteq> k)"
  by (auto simp: newMap_None_iff image_iff)

lemma moduleMap_registry_Some_iff:
  assumes "distinct (map name ms)"
  shows "newMap (map (\<lambda>m. (name m, m)) ms) k = Some m \<longleftrightarrow> m \<in> set ms \<and> name m = k"
proof -
  have "distinct (map fst (map (\<lambda>m. (name m, m)) ms))"
    using assms by (simp add: comp_def)
  then show ?thesis by (auto simp: newMap_Some_iff)
qed

lemma modules_names:
  "map name (modules imp) =
     [name (authModule imp), ''dashboard'', ''products'', ''users'', ''settings'']"
  by (simp add: modules_def dashboardModule_def productsModule_def usersModule_def
      settingsModule_def)

lemma modules_distinct_iff:
  "distinct (map name (modules imp)) \<longleftrightarrow>
     name (authModule imp) \<notin> {''dashboard'', ''products'', ''users'', ''settings''}"
  unfolding modules_names by simp

text \<open>The lookups of the four sidebar names never reach the auth manifest.\<close>

lemma moduleMap_dashboard: "moduleMap imp ''dashboard'' = Some (dashboardModule imp)"
  by (simp add: moduleMap_def newMap_def modules_def dashboardModule_def
      productsModule_def usersModule_def settingsModule_def)

lemma moduleMap_products: "moduleMap imp ''products'' = Some (productsModule imp)"
  by (simp add: moduleMap_def newMap_def modules_def dashboardModule_def
      productsModule_def usersModule_def settingsModule_def)

lemma moduleMap_users: "moduleMap imp ''users'' = Some (usersModule imp)"
  by (simp add: moduleMap_def newMap_def modules_def dashboardModule_def
      productsModule_def usersModule_def settingsModule_def)

lemma moduleMap_settings: "moduleMap imp ''settings'' = Some (settingsModule imp)"
  by (simp add: moduleMap_def newMap_def modules_def dashboardModule_def
      productsModule_def usersModule_def settingsModule_def)

lemma navItemVisible_gates:
  "navItemVisible mm hasRole hasPlan item \<longleftrightarrow>
     (\<exists>m. mm (module item) = Some m \<and> roleGateOpen hasRole m
        \<and> (minPlan m = Some [] \<or> planGateOpen hasPlan m))"
  by (auto simp: navItemVisible_def roleGateOpen_def planGateOpen_def truthy_length_def
      truthy_string_def split: option.splits)

lemma getVisibleNav_explicit:
  "getVisibleNav imp hasRole hasPlan =
     filter (\<lambda>item.
        (module item = ''dashboard'' \<and> hasRole [''admin'', ''editor'', ''viewer'']) \<or>
        (module item = ''products'' \<and> hasRole [''admin'', ''editor''] \<and> hasPlan ''starter'') \<or>
        (module item = ''users'' \<and> hasRole [''admin''] \<and> hasPlan ''pro'') \<or>
        (module item = ''settings'' \<and> hasRole [''admin'', ''editor''])) sidebarNav"
  unfolding getVisibleNav_def
  by (rule filter_cong [OF refl])
    (auto simp: sidebarNav_def navItemVisible_def moduleMap_dashboard moduleMap_products
      moduleMap_users moduleMap_settings dashboardModule_def productsModule_def
      usersModule_def settingsModule_def truthy_length_def truthy_string_def)

lemma accessGranted_shipped:
  assumes "distinct (map name (modules imp))"
  shows "accessGranted (modules imp) hasRole hasPlan item \<longleftrightarrow>
        (module item = ''dashboard'' \<and> hasRole [''admin'', ''editor'', ''viewer'']) \<or>
        (module item = ''products'' \<and> hasRole [''admin'', ''editor''] \<and> hasPlan ''starter'') \<or>
        (module item = ''users'' \<and> hasRole [''admin''] \<and> hasPlan ''pro'') \<or>
        (module item = ''settings'' \<and> hasRole [''admin'', ''editor'']) \<or>
        (module item = name (authModule imp) \<and> roleGateOpen hasRole (authModule imp)
           \<and> planGateOpen hasPlan (authModule imp))"
  by (auto simp: accessGranted_def modules_def dashboardModule_def productsModule_def
      usersModule_def settingsModule_def roleGateOpen_def planGateOpen_def)

section \<open>Facts about the store model\<close>

text \<open>
  With a callback that leaves the store as it is, the loop is the list filter on the part
  of the array it has not yet visited, and the store comes back unchanged.
\<close>

lemma filterLoop_readonly:
  assumes cb: "\<And>x. cb x \<sigma> = (P x, \<sigma>)"
  shows "filterLoop cb k len acc \<sigma> =
           (acc @ filter P (drop k (take len (sidebarNav_ref \<sigma>))), \<sigma>)"
proof (induction "len - k" arbitrary: k acc)
  case 0
  then have "len \<le> k" by simp
  then show ?case by (simp add: filterLoop.simps [of cb k])
next
  case (Suc d)
  then have lt: "k < len" and d: "d = len - Suc k" by simp_all
  show ?case
  proof (cases "length (sidebarNav_ref \<sigma>) \<le> k")
    case True
    then show ?thesis
      using lt Suc.hyps(1) [OF d, of acc]
      by (simp add: filterLoop.simps [of cb k])
  next
    case False
    then have kl: "k < length (take len (sidebarNav_ref \<sigma>))" using lt by simp
    have nth: "take len (sidebarNav_ref \<sigma>) ! k = sidebarNav_ref \<sigma> ! k" using lt by simp
    have "drop k (take len (sidebarNav_ref \<sigma>)) =
            sidebarNav_ref \<sigma> ! k # drop (Suc k) (take len (sidebarNav_ref \<sigma>))"
      using Cons_nth_drop_Suc [OF kl] nth by simp
    then show ?thesis
      using lt False Suc.hyps(1) [OF d]
      by (simp add: filterLoop.simps [of cb k] cb)
  qed
qed

lemma navItemVisible_st_pure:
  "navItemVisible_st (pureCallback hasRole) (pureCallback hasPlan) item \<sigma> =
     (navItemVisible (moduleMap_ref \<sigma>) hasRole hasPlan item, \<sigma>)"
  by (simp add: navItemVisible_st_def navItemVisible_def pureCallback_def
      split: option.splits)

lemma getVisibleNav_st_pure:
  "getVisibleNav_st (pureCallback hasRole) (pureCallback hasPlan) \<sigma> =
     (filter (navItemVisible (moduleMap_ref \<sigma>) hasRole hasPlan) (sidebarNav_ref \<sigma>), \<sigma>)"
  unfolding getVisibleNav_st_def
  by (simp add: filterLoop_readonly [where P = "navItemVisible (moduleMap_ref \<sigma>) hasRole hasPlan"]
      navItemVisible_st_pure)

text \<open>The same for callbacks that may read the store but do not write it.\<close>

lemma navItemVisible_st_readonly:
  assumes "\<And>rs \<tau>. snd (hasRole rs \<tau>) = \<tau>" and "\<And>p \<tau>. snd (hasPlan p \<tau>) = \<tau>"
  shows "snd (navItemVisible_st hasRole hasPlan item \<sigma>) = \<sigma>"
proof (cases "moduleMap_ref \<sigma> (module item)")
  case None
  then show ?thesis by (simp add: navItemVisible_st_def)
next
  case (Some manifest)
  define rs where "rs = (case allowedRoles manifest of Some rs \<Rightarrow> rs | None \<Rightarrow> [])"
  define pl where "pl = (case minPlan manifest of Some p \<Rightarrow> p | None \<Rightarrow> [])"
  have "snd (hasRole rs \<sigma>) = \<sigma>" by (rule assms(1))
  then obtain b1 where r: "hasRole rs \<sigma> = (b1, \<sigma>)"
    by (cases "hasRole rs \<sigma>") simp
  have "snd (hasPlan pl \<sigma>) = \<sigma>" by (rule assms(2))
  then obtain b2 where q: "hasPlan pl \<sigma> = (b2, \<sigma>)"
    by (cases "hasPlan pl \<sigma>") simp
  show ?thesis
    unfolding navItemVisible_st_def Some option.case rs_def [symmetric] pl_def [symmetric]
    by (simp add: r q)
qed

lemma getVisibleNav_st_readonly:
  assumes "\<And>rs \<tau>. snd (hasRole rs \<tau>) = \<tau>" and "\<And>p \<tau>. snd (hasPlan p \<tau>) = \<tau>"
  shows "snd (getVisibleNav_st hasRole hasPlan \<sigma>) = \<sigma>"
proof -
  have "\<And>x. navItemVisible_st hasRole hasPlan x \<sigma> =
          (fst (navItemVisible_st hasRole hasPlan x \<sigma>), \<sigma>)"
  proof -
    fix x
    have "snd (navItemVisible_st hasRole hasPlan x \<sigma>) = \<sigma>"
      using assms by (rule navItemVisible_st_readonly)
    then show "navItemVisible_st hasRole hasPlan x \<sigma> =
          (fst (navItemVisible_st hasRole hasPlan x \<sigma>), \<sigma>)"
      by (simp add: prod_eq_iff)
  qed
  then show ?thesis
    unfolding getVisibleNav_st_def
    by (simp add: filterLoop_readonly
        [where P = "\<lambda>x. fst (navItemVisible_st hasRole hasPlan x \<sigma>)"])
qed

text \<open>
  The loop reads the array's length once, so it calls the callback at most that many
  times and returns at most that many entries, whatever the callbacks write.
\<close>

lemma filterLoop_length:
  "length (fst (filterLoop cb k len acc \<sigma>)) \<le> length acc + (len - k)"
proof (induction "len - k" arbitrary: k acc \<sigma>)
  case 0
  then have "len \<le> k" by simp
  then show ?case by (simp add: filterLoop.simps [of cb k])
next
  case (Suc d)
  then have lt: "k < len" and d: "d = len - Suc k" by simp_all
  show ?case
  proof (cases "length (sidebarNav_ref \<sigma>) \<le> k")
    case True
    then show ?thesis
      using lt Suc.hyps(1) [OF d, of acc \<sigma>]
      by (simp add: filterLoop.simps [of cb k])
  next
    case False
    obtain selected \<sigma>' where c: "cb (sidebarNav_ref \<sigma> ! k) \<sigma> = (selected, \<sigma>')"
      by (cases "cb (sidebarNav_ref \<sigma> ! k) \<sigma>")
    have "length (fst (filterLoop cb (Suc k) len
            (if selected then acc @ [sidebarNav_ref \<sigma> ! k] else acc) \<sigma>'))
          \<le> length (if selected then acc @ [sidebarNav_ref \<sigma> ! k] else acc) + (len - Suc k)"
      by (rule Suc.hyps(1) [OF d])
    also have "\<dots> \<le> length acc + (len - k)"
      using lt by (cases selected) auto
    finally show ?thesis
      using lt False by (simp add: filterLoop.simps [of cb k] c)
  qed
qed

lemma getVisibleNav_st_length:
  "length (fst (getVisibleNav_st roleCallback planCallback \<sigma>)) \<le> length (sidebarNav_ref \<sigma>)"
  unfolding getVisibleNav_st_def using filterLoop_length [of _ 0 _ "[]" \<sigma>] by simp

lemma loadStore_fields:
  "sidebarNav_ref (loadStore nav ms) = nav"
  "modules_ref (loadStore nav ms) = ms"
  "moduleMap_ref (loadStore nav ms) = newMap (map (\<lambda>m. (name m, m)) ms)"
  by (simp_all add: loadStore_def)

lemma loadedStore_fields:
  "sidebarNav_ref (loadedStore imp) = sidebarNav"
  "modules_ref (loadedStore imp) = modules imp"
  "moduleMap_ref (loadedStore imp) = moduleMap imp"
  by (simp_all add: loadedStore_def loadStore_def moduleMap_def)

text \<open>A callback that writes is seen in the store the call leaves behind.\<close>

lemma getVisibleNav_st_threads_writes:
  "sidebarNav_ref (snd (getVisibleNav_st
      (\<lambda>rs \<sigma>. (True, \<sigma>\<lparr>sidebarNav_ref := take 2 (sidebarNav_ref \<sigma>)\<rparr>))
      (pureCallback (\<lambda>p. True)) (loadedStore modelledImports))) \<noteq> sidebarNav"
  by (simp add: getVisibleNav_st_def filterLoop.simps navItemVisible_st_def loadedStore_def
      loadStore_def sidebarNav_def newMap_def modules_def modelledImports_def
      authModule_modelled_def dashboardModule_def productsModule_def usersModule_def
      settingsModule_def truthy_length_def truthy_string_def pureCallback_def)

text \<open>In the shipped configuration every sidebar entry names a registered manifest.\<close>

lemma sidebarNav_all_registered:
  "item \<in> set sidebarNav \<Longrightarrow> moduleMap imp (module item) \<noteq> None"
  by (auto simp: sidebarNav_def moduleMap_dashboard moduleMap_products moduleMap_users
      moduleMap_settings)

lemma sidebarNav_distinct: "distinct sidebarNav"
  by (simp add: sidebarNav_def)

text \<open>The filter asks the predicates about five arguments only.\<close>

lemma getVisibleNav_reads_gates_only:
  assumes "hasRole [''admin'', ''editor'', ''viewer''] = hasRole' [''admin'', ''editor'', ''viewer'']"
    and "hasRole [''admin'', ''editor''] = hasRole' [''admin'', ''editor'']"
    and "hasRole [''admin''] = hasRole' [''admin'']"
    and "hasPlan ''starter'' = hasPlan' ''starter''"
    and "hasPlan ''pro'' = hasPlan' ''pro''"
  shows "getVisibleNav imp hasRole hasPlan = getVisibleNav imp hasRole' hasPlan'"
  unfolding getVisibleNav_explicit using assms by simp

lemma navItemVisible_mono:
  assumes "\<forall>rs. hasRole rs \<longrightarrow> hasRole' rs" and "\<forall>p. hasPlan p \<longrightarrow> hasPlan' p"
    and "navItemVisible mm hasRole hasPlan item"
  shows "navItemVisible mm hasRole' hasPlan' item"
  using assms by (auto simp: navItemVisible_def split: option.splits if_splits)

lemma modelledImports_distinct: "distinct (map name (modules modelledImports))"
  by (simp add: modules_distinct_iff modelledImports_def authModule_modelled_def)

section \<open>The registry's invariant\<close>

text \<open>
  C4. The names of the manifests in the registry are pairwise different: the four
  manifests under the module folders and the auth manifest, whatever the route tables.
\<close>

theorem modules_names_unique:
  "distinct (map name (modules (imp\<lparr>authModule := authModule_modelled r\<rparr>)))"
  unfolding modules_distinct_iff by (simp add: authModule_modelled_def)

section \<open>The navigation filter\<close>

text \<open>
  C1. Sidebar visibility is exactly the access-control derivation: an entry of the sidebar
  is returned if and only if the registry holds a manifest of the entry's module name
  whose role gate and plan gate are open. The registry's names are taken to be unique
  (the auth manifest is a parameter): of two manifests with one name the map would keep
  the later one.
\<close>

theorem getVisibleNav_is_access_derivation:
  assumes "distinct (map name (modules imp))"
    and "item \<in> set sidebarNav"
  shows "item \<in> set (getVisibleNav imp hasRole hasPlan) \<longleftrightarrow>
           accessGranted (modules imp) hasRole hasPlan item"
proof -
  from assms(1) have auth: "name (authModule imp) \<notin> {''dashboard'', ''products'', ''users'', ''settings''}"
    by (simp add: modules_distinct_iff)
  from assms(2) have "module item \<in> {''dashboard'', ''products'', ''users'', ''settings''}"
    by (auto simp: sidebarNav_def)
  with auth have "module item \<noteq> name (authModule imp)" by auto
  then show ?thesis
    using assms(2) by (simp add: getVisibleNav_explicit accessGranted_shipped [OF assms(1)])
qed

theorem getVisibleNav_is_access_derivation_witness:
  "distinct (map name (modules modelledImports))
   \<and> \<lparr>to = ''/products'', label = ''Products'', module = ''products''\<rparr> \<in> set sidebarNav
   \<and> (\<lparr>to = ''/products'', label = ''Products'', module = ''products''\<rparr>
        \<in> set (getVisibleNav modelledImports (\<lambda>rs. ''editor'' \<in> set rs) (\<lambda>p. p = ''starter''))
      \<longleftrightarrow> accessGranted (modules modelledImports) (\<lambda>rs. ''editor'' \<in> set rs) (\<lambda>p. p = ''starter'')
            \<lparr>to = ''/products'', label = ''Products'', module = ''products''\<rparr>)
   \<and> accessGranted (modules modelledImports) (\<lambda>rs. ''editor'' \<in> set rs) (\<lambda>p. p = ''starter'')
            \<lparr>to = ''/products'', label = ''Products'', module = ''products''\<rparr>"
proof -
  have d: "distinct (map name (modules modelledImports))"
    by (rule modelledImports_distinct)
  have i: "\<lparr>to = ''/products'', label = ''Products'', module = ''products''\<rparr> \<in> set sidebarNav"
    by (simp add: sidebarNav_def)
  have g: "accessGranted (modules modelledImports) (\<lambda>rs. ''editor'' \<in> set rs) (\<lambda>p. p = ''starter'')
            \<lparr>to = ''/products'', label = ''Products'', module = ''products''\<rparr>"
    by (simp add: accessGranted_shipped [OF d])
  show ?thesis
    using d i g getVisibleNav_is_access_derivation [OF d i, of "\<lambda>rs. ''editor'' \<in> set rs" "\<lambda>p. p = ''starter''"]
    by simp
qed

text \<open>
  C2. A sidebar entry whose module name no manifest of the registry carries is left out
  of the result; the call returns its list as for any other input, with the store as it
  was; and the result is the one the call gives with that entry taken out of the sidebar,
  so the other entries are in or out as they would be without it.
\<close>

theorem getVisibleNav_missing_manifest:
  assumes "\<forall>m \<in> set ms. name m \<noteq> module item"
  shows "item \<notin> set (fst (getVisibleNav_st (pureCallback hasRole) (pureCallback hasPlan)
                  (loadStore (before @ item # after) ms)))
       \<and> fst (getVisibleNav_st (pureCallback hasRole) (pureCallback hasPlan)
                  (loadStore (before @ item # after) ms))
         = fst (getVisibleNav_st (pureCallback hasRole) (pureCallback hasPlan)
                  (loadStore (before @ after) ms))
       \<and> snd (getVisibleNav_st (pureCallback hasRole) (pureCallback hasPlan)
                  (loadStore (before @ item # after) ms))
         = loadStore (before @ item # after) ms"
proof -
  have "newMap (map (\<lambda>m. (name m, m)) ms) (module item) = None"
    using assms by (simp add: moduleMap_registry_None_iff)
  then have "\<not> navItemVisible (newMap (map (\<lambda>m. (name m, m)) ms)) hasRole hasPlan item"
    by (simp add: navItemVisible_def)
  then show ?thesis
    by (simp add: getVisibleNav_st_pure loadStore_fields)
qed

theorem getVisibleNav_missing_manifest_witness:
  "module reportsItem \<notin> set (map name (modules modelledImports))
   \<and> reportsItem \<notin> set (fst (getVisibleNav_st (pureCallback (userHasRole ''editor''))
         (pureCallback (planCovers [''starter'']))
         (loadStore (take 2 sidebarNav @ reportsItem # drop 2 sidebarNav)
            (modules modelledImports))))
   \<and> fst (getVisibleNav_st (pureCallback (userHasRole ''editor''))
         (pureCallback (planCovers [''starter'']))
         (loadStore (take 2 sidebarNav @ reportsItem # drop 2 sidebarNav)
            (modules modelledImports)))
     = getVisibleNav modelledImports (userHasRole ''editor'') (planCovers [''starter''])"
proof -
  have h: "\<forall>m \<in> set (modules modelledImports). name m \<noteq> module reportsItem"
    by (simp add: modules_def modelledImports_def authModule_modelled_def dashboardModule_def
        productsModule_def usersModule_def settingsModule_def reportsItem_def)
  have r: "fst (getVisibleNav_st (pureCallback (userHasRole ''editor''))
         (pureCallback (planCovers [''starter'']))
         (loadStore (take 2 sidebarNav @ drop 2 sidebarNav) (modules modelledImports)))
     = getVisibleNav modelledImports (userHasRole ''editor'') (planCovers [''starter''])"
    by (simp add: getVisibleNav_st_pure loadStore_fields getVisibleNav_def moduleMap_def)
  note w = getVisibleNav_missing_manifest [OF h, of "userHasRole ''editor''"
      "planCovers [''starter'']" "take 2 sidebarNav" "drop 2 sidebarNav"]
  from w have a: "reportsItem \<notin> set (fst (getVisibleNav_st (pureCallback (userHasRole ''editor''))
         (pureCallback (planCovers [''starter'']))
         (loadStore (take 2 sidebarNav @ reportsItem # drop 2 sidebarNav)
            (modules modelledImports))))"
    by (rule conjunct1)
  from w have e: "fst (getVisibleNav_st (pureCallback (userHasRole ''editor''))
         (pureCallback (planCovers [''starter'']))
         (loadStore (take 2 sidebarNav @ reportsItem # drop 2 sidebarNav)
            (modules modelledImports)))
     = fst (getVisibleNav_st (pureCallback (userHasRole ''editor''))
         (pureCallback (planCovers [''starter'']))
         (loadStore (take 2 sidebarNav @ drop 2 sidebarNav) (modules modelledImports)))"
    by (rule conjunct1 [OF conjunct2])
  have n: "module reportsItem \<notin> set (map name (modules modelledImports))"
    using h by auto
  show ?thesis
    using n a trans [OF e r] by (intro conjI)
qed

text \<open>
  C3. The function is pure, total and deterministic. For every store and every pair of
  predicates the call returns a list and the store it was given; a second call, made on
  the store the first one left, with predicates that agree with the first pair on every
  role list and every plan tier, returns the same list and again the same store. The
  list has at most as many entries as the sidebar, for any callbacks at all: the loop is
  bounded by the length it reads before it starts. On the shipped configuration the list
  is the one of the direct model, where agreeing predicates give equal lists too.
\<close>

theorem getVisibleNav_pure_total_deterministic:
  assumes "\<forall>rs. hasRole rs = hasRole' rs" and "\<forall>p. hasPlan p = hasPlan' p"
  shows "fst (getVisibleNav_st (pureCallback hasRole') (pureCallback hasPlan')
               (snd (getVisibleNav_st (pureCallback hasRole) (pureCallback hasPlan) \<sigma>)))
           = fst (getVisibleNav_st (pureCallback hasRole) (pureCallback hasPlan) \<sigma>)
       \<and> snd (getVisibleNav_st (pureCallback hasRole) (pureCallback hasPlan) \<sigma>) = \<sigma>
       \<and> snd (getVisibleNav_st (pureCallback hasRole') (pureCallback hasPlan')
               (snd (getVisibleNav_st (pureCallback hasRole) (pureCallback hasPlan) \<sigma>))) = \<sigma>
       \<and> length (fst (getVisibleNav_st roleCallback planCallback \<sigma>))
           \<le> length (sidebarNav_ref \<sigma>)
       \<and> fst (getVisibleNav_st (pureCallback hasRole) (pureCallback hasPlan) (loadedStore imp))
           = getVisibleNav imp hasRole hasPlan
       \<and> getVisibleNav imp hasRole hasPlan = getVisibleNav imp hasRole' hasPlan'"
proof -
  have vis: "navItemVisible (moduleMap_ref \<sigma>) hasRole' hasPlan'
               = navItemVisible (moduleMap_ref \<sigma>) hasRole hasPlan"
    by (rule ext) (simp add: navItemVisible_def assms split: option.splits)
  have again: "fst (getVisibleNav_st (pureCallback hasRole') (pureCallback hasPlan')
               (snd (getVisibleNav_st (pureCallback hasRole) (pureCallback hasPlan) \<sigma>)))
           = fst (getVisibleNav_st (pureCallback hasRole) (pureCallback hasPlan) \<sigma>)"
    by (simp add: getVisibleNav_st_pure vis)
  have kept: "snd (getVisibleNav_st (pureCallback hasRole) (pureCallback hasPlan) \<sigma>) = \<sigma>"
    by (simp add: getVisibleNav_st_pure)
  have kept2: "snd (getVisibleNav_st (pureCallback hasRole') (pureCallback hasPlan')
               (snd (getVisibleNav_st (pureCallback hasRole) (pureCallback hasPlan) \<sigma>))) = \<sigma>"
    by (simp add: getVisibleNav_st_pure)
  have bound: "length (fst (getVisibleNav_st roleCallback planCallback \<sigma>))
           \<le> length (sidebarNav_ref \<sigma>)"
    by (rule getVisibleNav_st_length)
  have shipped: "fst (getVisibleNav_st (pureCallback hasRole) (pureCallback hasPlan)
                   (loadedStore imp)) = getVisibleNav imp hasRole hasPlan"
    by (simp add: getVisibleNav_st_pure loadedStore_fields getVisibleNav_def)
  have direct: "getVisibleNav imp hasRole hasPlan = getVisibleNav imp hasRole' hasPlan'"
    by (rule getVisibleNav_reads_gates_only) (simp_all add: assms)
  from again kept kept2 bound shipped direct show ?thesis by (intro conjI)
qed

theorem getVisibleNav_pure_total_deterministic_witness:
  "fst (getVisibleNav_st (pureCallback (\<lambda>rs. \<exists>r \<in> set rs. r = ''admin''))
          (pureCallback (\<lambda>p. p = ''starter'' \<or> p = ''pro''))
          (snd (getVisibleNav_st (pureCallback (userHasRole ''admin''))
                  (pureCallback (planCovers [''starter'', ''pro'']))
                  (loadedStore modelledImports))))
     = fst (getVisibleNav_st (pureCallback (userHasRole ''admin''))
              (pureCallback (planCovers [''starter'', ''pro''])) (loadedStore modelledImports))
   \<and> snd (getVisibleNav_st (pureCallback (userHasRole ''admin''))
              (pureCallback (planCovers [''starter'', ''pro''])) (loadedStore modelledImports))
       = loadedStore modelledImports
   \<and> length (fst (getVisibleNav_st
              (\<lambda>rs \<tau>. (True, \<tau>\<lparr>sidebarNav_ref := sidebarNav_ref \<tau> @ sidebarNav_ref \<tau>\<rparr>))
              (pureCallback (planCovers [''starter'', ''pro''])) (loadedStore modelledImports)))
       \<le> length (sidebarNav_ref (loadedStore modelledImports))
   \<and> fst (getVisibleNav_st (pureCallback (userHasRole ''admin''))
              (pureCallback (planCovers [''starter'', ''pro''])) (loadedStore modelledImports))
       = sidebarNav"
proof -
  have h1: "\<forall>rs. userHasRole ''admin'' rs = (\<exists>r \<in> set rs. r = ''admin'')"
    by (auto simp: userHasRole_def)
  have h2: "\<forall>p. planCovers [''starter'', ''pro''] p = (p = ''starter'' \<or> p = ''pro'')"
    by (auto simp: planCovers_def)
  note w = getVisibleNav_pure_total_deterministic [OF h1 h2,
      where \<sigma> = "loadedStore modelledImports" and imp = modelledImports
        and roleCallback = "\<lambda>rs \<tau>. (True, \<tau>\<lparr>sidebarNav_ref := sidebarNav_ref \<tau> @ sidebarNav_ref \<tau>\<rparr>)"
        and planCallback = "pureCallback (planCovers [''starter'', ''pro''])"]
  have all: "getVisibleNav modelledImports (userHasRole ''admin'')
               (planCovers [''starter'', ''pro'']) = sidebarNav"
    by (simp add: getVisibleNav_explicit userHasRole_def planCovers_def sidebarNav_def)
  from w have a: "fst (getVisibleNav_st (pureCallback (\<lambda>rs. \<exists>r \<in> set rs. r = ''admin''))
          (pureCallback (\<lambda>p. p = ''starter'' \<or> p = ''pro''))
          (snd (getVisibleNav_st (pureCallback (userHasRole ''admin''))
                  (pureCallback (planCovers [''starter'', ''pro'']))
                  (loadedStore modelledImports))))
     = fst (getVisibleNav_st (pureCallback (userHasRole ''admin''))
              (pureCallback (planCovers [''starter'', ''pro''])) (loadedStore modelledImports))"
    by (rule conjunct1)
  from w have b: "snd (getVisibleNav_st (pureCallback (userHasRole ''admin''))
              (pureCallback (planCovers [''starter'', ''pro''])) (loadedStore modelledImports))
       = loadedStore modelledImports"
    by (rule conjunct1 [OF conjunct2])
  from w have c: "length (fst (getVisibleNav_st
              (\<lambda>rs \<tau>. (True, \<tau>\<lparr>sidebarNav_ref := sidebarNav_ref \<tau> @ sidebarNav_ref \<tau>\<rparr>))
              (pureCallback (planCovers [''starter'', ''pro''])) (loadedStore modelledImports)))
       \<le> length (sidebarNav_ref (loadedStore modelledImports))"
    by (rule conjunct1 [OF conjunct2 [OF conjunct2 [OF conjunct2]]])
  from w have d: "fst (getVisibleNav_st (pureCallback (userHasRole ''admin''))
              (pureCallback (planCovers [''starter'', ''pro''])) (loadedStore modelledImports))
       = getVisibleNav modelledImports (userHasRole ''admin'') (planCovers [''starter'', ''pro''])"
    by (rule conjunct1 [OF conjunct2 [OF conjunct2 [OF conjunct2 [OF conjunct2]]]])
  from a b c trans [OF d all] show ?thesis by (intro conjI)
qed

text \<open>
  C5. The result is a subsequence of the sidebar: its entries are sidebar entries, in the
  sidebar's order, and none of them twice.
\<close>

theorem getVisibleNav_subseq:
  "subseq (getVisibleNav imp hasRole hasPlan) sidebarNav
   \<and> distinct (getVisibleNav imp hasRole hasPlan)
   \<and> set (getVisibleNav imp hasRole hasPlan) \<subseteq> set sidebarNav"
  unfolding getVisibleNav_def
  by (simp add: sidebarNav_distinct)

text \<open>
  C6. A call with two predicates writes nothing: it returns the filtered list, and the
  store it leaves behind has the sidebar array, the registry array and the map of
  manifests it started with.
\<close>

theorem getVisibleNav_frame:
  "fst (getVisibleNav_st (pureCallback hasRole) (pureCallback hasPlan) (loadedStore imp))
     = getVisibleNav imp hasRole hasPlan
   \<and> snd (getVisibleNav_st (pureCallback hasRole) (pureCallback hasPlan) \<sigma>) = \<sigma>
   \<and> sidebarNav_ref (snd (getVisibleNav_st (pureCallback hasRole) (pureCallback hasPlan)
        (loadedStore imp))) = sidebarNav
   \<and> modules_ref (snd (getVisibleNav_st (pureCallback hasRole) (pureCallback hasPlan)
        (loadedStore imp))) = modules imp
   \<and> moduleMap_ref (snd (getVisibleNav_st (pureCallback hasRole) (pureCallback hasPlan)
        (loadedStore imp))) = moduleMap imp"
  by (simp add: getVisibleNav_st_pure loadedStore_fields getVisibleNav_def)

section \<open>Public and protected modules\<close>

text \<open>
  C7. The public and the protected modules partition the registry: a manifest of the
  registry is public exactly when its flag is true, protected exactly when the flag is
  false or absent, never both, and each manifest is in one of the two lists, as often as
  it is in the registry.
\<close>

theorem public_protected_partition:
  "(\<forall>m. m \<in> set (publicModules imp) \<longleftrightarrow> m \<in> set (modules imp) \<and> public m = Some True)
   \<and> (\<forall>m. m \<in> set (protectedModules imp) \<longleftrightarrow>
          m \<in> set (modules imp) \<and> (public m = Some False \<or> public m = None))
   \<and> set (publicModules imp) \<inter> set (protectedModules imp) = {}
   \<and> set (publicModules imp) \<union> set (protectedModules imp) = set (modules imp)
   \<and> mset (publicModules imp) + mset (protectedModules imp) = mset (modules imp)"
proof -
  have flag: "\<And>b. truthy_flag b \<longleftrightarrow> b = Some True"
    by (simp add: truthy_flag_def split: option.splits)
  have nflag: "\<And>b. \<not> truthy_flag b \<longleftrightarrow> b = Some False \<or> b = None"
    by (auto simp: truthy_flag_def split: option.splits)
  have 1: "\<forall>m. m \<in> set (publicModules imp) \<longleftrightarrow> m \<in> set (modules imp) \<and> public m = Some True"
    by (simp add: publicModules_def flag)
  have 2: "\<forall>m. m \<in> set (protectedModules imp) \<longleftrightarrow>
          m \<in> set (modules imp) \<and> (public m = Some False \<or> public m = None)"
    unfolding protectedModules_def set_filter mem_Collect_eq nflag by simp
  have 3: "set (publicModules imp) \<inter> set (protectedModules imp) = {}"
    by (auto simp: publicModules_def protectedModules_def)
  have 4: "set (publicModules imp) \<union> set (protectedModules imp) = set (modules imp)"
    by (auto simp: publicModules_def protectedModules_def)
  have 5: "mset (publicModules imp) + mset (protectedModules imp) = mset (modules imp)"
    by (simp add: publicModules_def protectedModules_def)
  from 1 2 3 4 5 show ?thesis by blast
qed

section \<open>Empty role lists and monotonicity\<close>

text \<open>
  C8. When the manifest of an entry has the empty list of roles, the role callback is not
  called for it: whatever the callback would answer or write, the outcome is the same.
  With predicates, the entry is visible exactly when it is in the sidebar and the plan
  check lets it through.
\<close>

theorem empty_allowedRoles_unrestricted:
  assumes "moduleMap_ref \<sigma> (module item) = Some m" and "allowedRoles m = Some []"
  shows "navItemVisible_st hasRole hasPlan item \<sigma> = navItemVisible_st hasRole' hasPlan item \<sigma>
       \<and> (item \<in> set (fst (getVisibleNav_st (pureCallback pr) (pureCallback pp) \<sigma>))
            \<longleftrightarrow> item \<in> set (sidebarNav_ref \<sigma>)
                \<and> (case minPlan m of None \<Rightarrow> True | Some p \<Rightarrow> p = [] \<or> pp p))"
  using assms
  by (auto simp: navItemVisible_st_def truthy_length_def getVisibleNav_st_pure
      navItemVisible_def truthy_string_def split: option.splits)

theorem empty_allowedRoles_unrestricted_witness:
  "moduleMap_ref (loadStore [reportsItem] [reportsModule]) (module reportsItem)
     = Some reportsModule
   \<and> allowedRoles reportsModule = Some []
   \<and> navItemVisible_st (pureCallback (\<lambda>rs. False)) (pureCallback (planCovers [''pro'']))
        reportsItem (loadStore [reportsItem] [reportsModule])
     = navItemVisible_st (\<lambda>rs \<tau>. (True, \<tau>\<lparr>sidebarNav_ref := []\<rparr>))
        (pureCallback (planCovers [''pro''])) reportsItem (loadStore [reportsItem] [reportsModule])
   \<and> reportsItem \<in> set (fst (getVisibleNav_st (pureCallback (\<lambda>rs. False))
        (pureCallback (planCovers [''pro''])) (loadStore [reportsItem] [reportsModule])))"
proof -
  have h1: "moduleMap_ref (loadStore [reportsItem] [reportsModule]) (module reportsItem)
     = Some reportsModule"
    by (simp add: loadStore_def newMap_def reportsItem_def reportsModule_def)
  have h2: "allowedRoles reportsModule = Some []"
    by (simp add: reportsModule_def)
  have p: "minPlan reportsModule = Some ''pro''"
    by (simp add: reportsModule_def)
  show ?thesis
    using h1 h2
      empty_allowedRoles_unrestricted [OF h1 h2, of "pureCallback (\<lambda>rs. False)"
        "pureCallback (planCovers [''pro''])" "\<lambda>rs \<tau>. (True, \<tau>\<lparr>sidebarNav_ref := []\<rparr>)"
        "\<lambda>rs. False" "planCovers [''pro'']"]
    by (simp add: p planCovers_def loadStore_fields)
qed

text \<open>
  C9. The filter is monotone in the predicates: when the second pair of predicates says
  yes wherever the first does, every entry the first pair shows the second shows too, in
  the same order.
\<close>

theorem getVisibleNav_mono:
  assumes "\<forall>rs. hasRole rs \<longrightarrow> hasRole' rs" and "\<forall>p. hasPlan p \<longrightarrow> hasPlan' p"
  shows "set (getVisibleNav imp hasRole hasPlan) \<subseteq> set (getVisibleNav imp hasRole' hasPlan')
       \<and> subseq (getVisibleNav imp hasRole hasPlan) (getVisibleNav imp hasRole' hasPlan')"
proof -
  have step: "\<And>item. navItemVisible (moduleMap imp) hasRole hasPlan item
               \<Longrightarrow> navItemVisible (moduleMap imp) hasRole' hasPlan' item"
    using assms by (rule navItemVisible_mono)
  have eq: "getVisibleNav imp hasRole hasPlan =
          filter (navItemVisible (moduleMap imp) hasRole hasPlan)
            (getVisibleNav imp hasRole' hasPlan')"
    unfolding getVisibleNav_def filter_filter
    by (rule filter_cong [OF refl]) (use step in blast)
  have "subseq (getVisibleNav imp hasRole hasPlan) (getVisibleNav imp hasRole' hasPlan')"
    by (subst eq) simp
  moreover have "set (getVisibleNav imp hasRole hasPlan)
                   \<subseteq> set (getVisibleNav imp hasRole' hasPlan')"
    using step by (auto simp: getVisibleNav_def)
  ultimately show ?thesis by simp
qed

theorem getVisibleNav_mono_witness:
  "set (getVisibleNav modelledImports (userHasRole ''editor'') (planCovers [''starter'']))
     \<subseteq> set (getVisibleNav modelledImports
            (\<lambda>rs. userHasRole ''editor'' rs \<or> userHasRole ''admin'' rs)
            (planCovers [''starter'', ''pro'']))
   \<and> subseq (getVisibleNav modelledImports (userHasRole ''editor'') (planCovers [''starter'']))
       (getVisibleNav modelledImports
            (\<lambda>rs. userHasRole ''editor'' rs \<or> userHasRole ''admin'' rs)
            (planCovers [''starter'', ''pro'']))"
proof -
  have h1: "\<forall>rs. userHasRole ''editor'' rs \<longrightarrow> userHasRole ''editor'' rs \<or> userHasRole ''admin'' rs"
    by simp
  have h2: "\<forall>p. planCovers [''starter''] p \<longrightarrow> planCovers [''starter'', ''pro''] p"
    by (simp add: planCovers_def)
  show ?thesis
    by (rule getVisibleNav_mono [OF h1 h2, of modelledImports])
qed

end
